theory Spec2Isabelle
  imports Main
begin

section \<open>JavaScript values\<close>

text \<open>
  The engine of \<^verbatim>\<open>mict-framework.js\<close> threads an arbitrary JavaScript value through
  its stages and inspects its configuration dynamically (\<^verbatim>\<open>typeof\<close>, truthiness,
  \<^verbatim>\<open>Array.isArray\<close>). Values are therefore one datatype. Numbers are restricted to
  integers. A function value is a reference \<open>JFun f\<close>; what calling it does is given by
  the host (below). A plain object is the list of its own enumerable properties in
  enumeration order; a key bound twice stands for its first binding. A promise carries
  the result it will settle with.

  JavaScript hands objects around by reference, and the source lets a stage function
  ``modify the state directly''. An object that some callback may change is therefore a
  reference \<open>JRef a\<close>: the engine stores and passes on the reference, and the object it
  names lives in the world outside the engine, where every callback can change it. An
  object written out as a value (\<open>JObj\<close>, \<open>JArr\<close>) is one that nothing changes, as the
  configuration is after validation.
\<close>

datatype 'a outcome = Returned 'a | Raised 'a

datatype fn = User nat | Native string

datatype jsval =
    JUndefined
  | JNull
  | JBool bool
  | JNum int
  | JStr string
  | JArr "jsval list"
  | JObj "(string \<times> jsval) list"
  | JFun fn
  | JPromise "jsval outcome"
  | JRef nat

fun truthy :: "jsval \<Rightarrow> bool" where
  "truthy JUndefined = False"
| "truthy JNull = False"
| "truthy (JBool b) = b"
| "truthy (JNum n) = (n \<noteq> 0)"
| "truthy (JStr s) = (s \<noteq> [])"
| "truthy (JArr xs) = True"
| "truthy (JObj ps) = True"
| "truthy (JFun f) = True"
| "truthy (JPromise p) = True"
| "truthy (JRef a) = True"

fun typeof_js :: "jsval \<Rightarrow> string" where
  "typeof_js JUndefined = ''undefined''"
| "typeof_js JNull = ''object''"
| "typeof_js (JBool b) = ''boolean''"
| "typeof_js (JNum n) = ''number''"
| "typeof_js (JStr s) = ''string''"
| "typeof_js (JArr xs) = ''object''"
| "typeof_js (JObj ps) = ''object''"
| "typeof_js (JFun f) = ''function''"
| "typeof_js (JPromise p) = ''object''"
| "typeof_js (JRef a) = ''object''"

text \<open>\<^verbatim>\<open>a || b\<close>\<close>

definition js_or :: "jsval \<Rightarrow> jsval \<Rightarrow> jsval" where
  "js_or a b = (if truthy a then a else b)"

fun isArray :: "jsval \<Rightarrow> bool" where
  "isArray (JArr xs) = True"
| "isArray v = False"

fun elems :: "jsval \<Rightarrow> jsval list" where
  "elems (JArr xs) = xs"
| "elems v = []"

text \<open>
  \<^verbatim>\<open>stages.includes(stageName)\<close>, where \<^verbatim>\<open>stageName\<close> is a key produced by
  \<^verbatim>\<open>for ... in\<close> and hence a string: SameValueZero equates a string only with an equal
  string.
\<close>

definition includes_js :: "jsval list \<Rightarrow> string \<Rightarrow> bool" where
  "includes_js xs k = (JStr k \<in> set xs)"

subsection \<open>The host\<close>

text \<open>
  Everything the source leaves to the JavaScript runtime and to the code around the
  engine is a parameter:
  \<^item> \<open>call h f args x\<close>: what calling the function \<open>f\<close> on \<open>args\<close> does when the world
    outside the engine is \<open>x\<close>: it returns or raises, and leaves a new outside world.
    Callbacks may thus be stateful or random (one of the examples shuffles with
    \<^verbatim>\<open>Math.random\<close>), and they may change any object a reference names, the state
    object they are handed included: those objects are part of the outside world. What
    they do not do is call the engine's methods or assign its fields.
  \<^item> \<open>to_key h v\<close>: the property key a non-string value converts to;
  \<^item> \<open>host_get h v k\<close> and \<open>host_keys h v\<close>: property read and \<^verbatim>\<open>for ... in\<close>
    enumeration on a value that is not a plain object written out as a value (array,
    string, function, boxed primitive, reference). The engine reads properties of its
    configuration only, never of the state.
\<close>

record 'w host =
  call :: "fn \<Rightarrow> jsval list \<Rightarrow> 'w \<Rightarrow> jsval outcome \<times> 'w"
  to_key :: "jsval \<Rightarrow> string"
  host_get :: "jsval \<Rightarrow> string \<Rightarrow> jsval"
  host_keys :: "jsval \<Rightarrow> string list"

text \<open>
  Every plain object inherits from \<^verbatim>\<open>Object.prototype\<close>. Its properties are not
  enumerable, so \<^verbatim>\<open>for ... in\<close> skips them, but a property read \<^verbatim>\<open>obj[key]\<close> finds
  them when \<^verbatim>\<open>obj\<close> has no own property \<^verbatim>\<open>key\<close>. All are built-in functions except
  \<^verbatim>\<open>__proto__\<close>, which reads as the prototype object itself (an object without
  enumerable properties).
\<close>

definition object_prototype :: "(string \<times> jsval) list" where
  "object_prototype =
    [(''constructor'', JFun (Native ''constructor'')),
     (''__defineGetter__'', JFun (Native ''__defineGetter__'')),
     (''__defineSetter__'', JFun (Native ''__defineSetter__'')),
     (''hasOwnProperty'', JFun (Native ''hasOwnProperty'')),
     (''__lookupGetter__'', JFun (Native ''__lookupGetter__'')),
     (''__lookupSetter__'', JFun (Native ''__lookupSetter__'')),
     (''isPrototypeOf'', JFun (Native ''isPrototypeOf'')),
     (''propertyIsEnumerable'', JFun (Native ''propertyIsEnumerable'')),
     (''toString'', JFun (Native ''toString'')),
     (''valueOf'', JFun (Native ''valueOf'')),
     (''__proto__'', JObj []),
     (''toLocaleString'', JFun (Native ''toLocaleString''))]"

text \<open>\<^verbatim>\<open>obj[key]\<close> for a string key\<close>

definition get_prop :: "'w host \<Rightarrow> jsval \<Rightarrow> string \<Rightarrow> jsval" where
  "get_prop h obj k =
    (case obj of
       JObj ps \<Rightarrow>
         (case map_of ps k of
            Some v \<Rightarrow> v
          | None \<Rightarrow> (case map_of object_prototype k of Some v \<Rightarrow> v | None \<Rightarrow> JUndefined))
     | _ \<Rightarrow> host_get h obj k)"

text \<open>The keys \<^verbatim>\<open>for (const k in obj)\<close> runs through\<close>

definition enum_keys :: "'w host \<Rightarrow> jsval \<Rightarrow> string list" where
  "enum_keys h obj = (case obj of JObj ps \<Rightarrow> map fst ps | _ \<Rightarrow> host_keys h obj)"

text \<open>The property key of \<^verbatim>\<open>obj[v]\<close>\<close>

definition prop_key :: "'w host \<Rightarrow> jsval \<Rightarrow> string" where
  "prop_key h v = (case v of JStr s \<Rightarrow> s | _ \<Rightarrow> to_key h v)"

section \<open>The engine and its surroundings\<close>

text \<open>
  What the engine does to its surroundings is recorded: every call of a stage function,
  of \<^verbatim>\<open>updateUI\<close> and of \<^verbatim>\<open>errorHandler\<close> with its arguments, every console
  diagnostic, and every timer created or cleared.
\<close>

datatype role = Handler | Observer | ErrHandler

datatype event =
    Called role "jsval list"
  | ConsoleError jsval jsval
  | ConsoleWarn string
  | TimerSet nat jsval
  | TimerCleared nat

record 'w world =
  outside :: 'w
  timers :: "(nat \<times> jsval) list"
  last_timer :: nat
  trace :: "event list"

text \<open>
  The fields of a \<^verbatim>\<open>MICT\<close> instance. \<open>intervalId\<close> is \<open>None\<close> for \<^verbatim>\<open>null\<close>; a timer
  handle is always truthy. The constructor never assigns \<^verbatim>\<open>this.initialState\<close>, which
  \<^verbatim>\<open>reset\<close> reads: the field is there and starts out \<^verbatim>\<open>undefined\<close>.
\<close>

record engine =
  stages :: "jsval list"
  currentState :: jsval
  currentStageIndex :: nat
  updateUI :: jsval
  stageFunctions :: jsval
  intervalId :: "nat option"
  interval :: jsval
  errorHandler :: jsval
  previousState :: jsval
  initialState :: jsval

datatype completion = Normal | Throw jsval

definition type_error :: jsval where
  "type_error = JStr ''TypeError: not a function''"

text \<open>
  A call \<^verbatim>\<open>f(args)\<close>. Calling what is not a function raises a \<^verbatim>\<open>TypeError\<close> and calls
  nothing.
\<close>

definition invoke :: "'w host \<Rightarrow> role \<Rightarrow> jsval \<Rightarrow> jsval list \<Rightarrow> 'w world \<Rightarrow> jsval outcome \<times> 'w world" where
  "invoke h r f args wd =
    (case f of
       JFun g \<Rightarrow>
         (case call h g args (outside wd) of
            (res, x) \<Rightarrow> (res, wd\<lparr>outside := x, trace := trace wd @ [Called r args]\<rparr>))
     | _ \<Rightarrow> (Raised type_error, wd))"

definition setInterval :: "jsval \<Rightarrow> 'w world \<Rightarrow> nat \<times> 'w world" where
  "setInterval ms wd =
    (let t = Suc (last_timer wd)
     in (t, wd\<lparr>timers := timers wd @ [(t, ms)], last_timer := t,
               trace := trace wd @ [TimerSet t ms]\<rparr>))"

definition clearInterval :: "nat \<Rightarrow> 'w world \<Rightarrow> 'w world" where
  "clearInterval t wd =
    wd\<lparr>timers := filter (\<lambda>p. fst p \<noteq> t) (timers wd), trace := trace wd @ [TimerCleared t]\<rparr>"

definition console_warn :: "string \<Rightarrow> 'w world \<Rightarrow> 'w world" where
  "console_warn msg wd = wd\<lparr>trace := trace wd @ [ConsoleWarn msg]\<rparr>"

definition console_error :: "jsval \<Rightarrow> jsval \<Rightarrow> 'w world \<Rightarrow> 'w world" where
  "console_error stage err wd = wd\<lparr>trace := trace wd @ [ConsoleError stage err]\<rparr>"

subsection \<open>The constructor\<close>

datatype config_error =
    MissingConfig
  | MissingStages
  | MissingUpdateUI
  | InvalidStageName string
  | NotAFunction string

text \<open>The loop \<^verbatim>\<open>for (const stageName in this.stageFunctions)\<close>, over the keys left\<close>

fun validate_stageFunctions :: "'w host \<Rightarrow> jsval list \<Rightarrow> jsval \<Rightarrow> string list \<Rightarrow> config_error option" where
  "validate_stageFunctions h stgs sf [] = None"
| "validate_stageFunctions h stgs sf (stageName # rest) =
    (if \<not> includes_js stgs stageName then Some (InvalidStageName stageName)
     else if typeof_js (get_prop h sf stageName) \<noteq> ''function'' then Some (NotAFunction stageName)
     else validate_stageFunctions h stgs sf rest)"

definition construct :: "'w host \<Rightarrow> jsval \<Rightarrow> config_error + engine" where
  "construct h config =
    (if \<not> truthy config \<or> typeof_js config \<noteq> ''object'' then Inl MissingConfig
     else if \<not> isArray (get_prop h config ''stages'') \<or> length (elems (get_prop h config ''stages'')) = 0
       then Inl MissingStages
     else if typeof_js (get_prop h config ''updateUI'') \<noteq> ''function'' then Inl MissingUpdateUI
     else
       let sf = js_or (get_prop h config ''stageFunctions'') (JObj []);
           stgs = elems (get_prop h config ''stages'')
       in (case validate_stageFunctions h stgs sf (enum_keys h sf) of
             Some err \<Rightarrow> Inl err
           | None \<Rightarrow>
               Inr \<lparr>stages = stgs,
                    currentState = get_prop h config ''initialState'',
                    currentStageIndex = 0,
                    updateUI = get_prop h config ''updateUI'',
                    stageFunctions = sf,
                    intervalId = None,
                    interval = js_or (get_prop h config ''interval'') (JNum 0),
                    errorHandler = js_or (get_prop h config ''errorHandler'') JNull,
                    previousState = JNull,
                    initialState = JUndefined\<rparr>))"

subsection \<open>The methods\<close>

text \<open>\<^verbatim>\<open>this.stages[this.currentStageIndex]\<close>; past the end an array reads \<^verbatim>\<open>undefined\<close>.\<close>

definition getCurrentStage :: "engine \<Rightarrow> jsval" where
  "getCurrentStage e =
    (if currentStageIndex e < length (stages e) then stages e ! currentStageIndex e else JUndefined)"

definition getCurrentStageIndex :: "engine \<Rightarrow> nat" where
  "getCurrentStageIndex e = currentStageIndex e"

definition getPreviousState :: "engine \<Rightarrow> jsval" where
  "getPreviousState e = previousState e"

text \<open>
  \<^verbatim>\<open>this.updateUI(this.currentState, this.getCurrentStage())\<close>: the last statement of
  \<^verbatim>\<open>nextStage\<close>, \<^verbatim>\<open>setState\<close> and \<^verbatim>\<open>reset\<close>. What the observer raises reaches the caller.
\<close>

definition notify :: "'w host \<Rightarrow> engine \<Rightarrow> 'w world \<Rightarrow> completion \<times> engine \<times> 'w world" where
  "notify h e wd =
    (case invoke h Observer (updateUI e) [currentState e, getCurrentStage e] wd of
       (Returned v, wd') \<Rightarrow> (Normal, e, wd')
     | (Raised err, wd') \<Rightarrow> (Throw err, e, wd'))"

text \<open>The two statements after the \<^verbatim>\<open>if\<close> of \<^verbatim>\<open>nextStage\<close>: move to the next stage.\<close>

definition move_on :: "'w host \<Rightarrow> engine \<Rightarrow> 'w world \<Rightarrow> completion \<times> engine \<times> 'w world" where
  "move_on h e wd =
    notify h (e\<lparr>currentStageIndex := (currentStageIndex e + 1) mod length (stages e)\<rparr>) wd"

text \<open>
  \<^verbatim>\<open>nextStage()\<close>. The stage function is handed what \<open>currentState\<close> holds; for an
  object that is the reference, and the call may change the object, which shows in the
  outside world it leaves (\<open>wd1\<close>). The source reads \<^verbatim>\<open>this.currentState\<close> again after the
  call to save it in \<open>previousState\<close>: the field still holds what it held, callbacks
  assigning no field, so it is the same value or the same reference, now naming the
  object as the call left it.
\<close>

definition nextStage :: "'w host \<Rightarrow> engine \<Rightarrow> 'w world \<Rightarrow> completion \<times> engine \<times> 'w world" where
  "nextStage h e wd =
    (let currentStage = getCurrentStage e;
         f = get_prop h (stageFunctions e) (prop_key h currentStage)
     in if truthy f then
          (case invoke h Handler f [currentState e] wd of
             (Returned newState, wd1) \<Rightarrow>
               let e1 = e\<lparr>previousState := currentState e\<rparr>;
                   e2 = (if newState \<noteq> JUndefined then e1\<lparr>currentState := newState\<rparr> else e1)
               in move_on h e2 wd1
           | (Raised error, wd1) \<Rightarrow>
               if truthy (errorHandler e) then
                 (case invoke h ErrHandler (errorHandler e) [error, currentStage, currentState e] wd1 of
                    (Returned v, wd2) \<Rightarrow> (Normal, e, wd2)
                  | (Raised err2, wd2) \<Rightarrow> (Throw err2, e, wd2))
               else (Normal, e, console_error currentStage error wd1))
        else move_on h e wd)"

definition stopCycle :: "engine \<Rightarrow> 'w world \<Rightarrow> engine \<times> 'w world" where
  "stopCycle e wd =
    (case intervalId e of
       Some t \<Rightarrow> (e\<lparr>intervalId := None\<rparr>, clearInterval t wd)
     | None \<Rightarrow> (e, wd))"

definition already_running :: string where
  "already_running = ''MICT cycle is already running.  Stopping the previous cycle.''"

definition no_interval :: string where
  "no_interval = ''MICT cycle started without an interval.  Call nextStage() manually.''"

text \<open>
  \<^verbatim>\<open>startCycle(interval)\<close>; an omitted argument is \<^verbatim>\<open>undefined\<close>. The timer's callback is
  \<^verbatim>\<open>nextStage\<close>; the timer is recorded with its period.
\<close>

definition startCycle :: "jsval \<Rightarrow> engine \<Rightarrow> 'w world \<Rightarrow> engine \<times> 'w world" where
  "startCycle ms e wd =
    (case (case intervalId e of
             Some t \<Rightarrow> stopCycle e (console_warn already_running wd)
           | None \<Rightarrow> (e, wd)) of
       (e1, wd1) \<Rightarrow>
         let intervalToUse = js_or ms (interval e1)
         in if \<not> truthy intervalToUse then (e1, console_warn no_interval wd1)
            else (case setInterval intervalToUse wd1 of
                    (t, wd2) \<Rightarrow> (e1\<lparr>intervalId := Some t\<rparr>, wd2)))"

definition setState :: "'w host \<Rightarrow> jsval \<Rightarrow> engine \<Rightarrow> 'w world \<Rightarrow> completion \<times> engine \<times> 'w world" where
  "setState h newState e wd = notify h (e\<lparr>currentState := newState\<rparr>) wd"

definition reset :: "'w host \<Rightarrow> engine \<Rightarrow> 'w world \<Rightarrow> completion \<times> engine \<times> 'w world" where
  "reset h e wd =
    (let e1 = e\<lparr>currentStageIndex := 0\<rparr>;
         e2 = e1\<lparr>currentState := initialState e1\<rparr>;
         e3 = e2\<lparr>previousState := JNull\<rparr>
     in (case stopCycle e3 wd of (e4, wd1) \<Rightarrow> notify h e4 wd1))"

subsection \<open>Sequences of calls\<close>

text \<open>
  A caller drives the engine by a sequence of method calls. A call that raises (the
  observer may) still leaves an engine behind, on which the caller can go on; \<open>run\<close>
  returns how each call completed and the engine and world after the last.
\<close>

datatype method_call = NextStage | SetState jsval | Reset

fun step :: "'w host \<Rightarrow> method_call \<Rightarrow> engine \<Rightarrow> 'w world \<Rightarrow> completion \<times> engine \<times> 'w world" where
  "step h NextStage e wd = nextStage h e wd"
| "step h (SetState v) e wd = setState h v e wd"
| "step h Reset e wd = reset h e wd"

fun run :: "'w host \<Rightarrow> method_call list \<Rightarrow> engine \<Rightarrow> 'w world \<Rightarrow> completion list \<times> engine \<times> 'w world" where
  "run h [] e wd = ([], e, wd)"
| "run h (c # cs) e wd =
    (case step h c e wd of
       (r, e1, wd1) \<Rightarrow> (case run h cs e1 wd1 of (rs, e2, wd2) \<Rightarrow> (r # rs, e2, wd2)))"

fun is_observer_call :: "event \<Rightarrow> bool" where
  "is_observer_call (Called Observer args) = True"
| "is_observer_call ev = False"

definition observer_calls :: "event list \<Rightarrow> event list" where
  "observer_calls tr = filter is_observer_call tr"

text \<open>
  What the constructor establishes and every method keeps (\<open>construct_wf\<close> and \<open>run_wf\<close>
  below): the engines of a running program are the engines with this property, and the
  theorems about every engine are stated for them.
\<close>

definition wf_engine :: "engine \<Rightarrow> bool" where
  "wf_engine e =
    (stages e \<noteq> [] \<and> currentStageIndex e < length (stages e) \<and> typeof_js (updateUI e) = ''function'')"

subsection \<open>The validation rules as the specification words them\<close>

text \<open>
  The stage functions of a configuration are its \<^verbatim>\<open>stageFunctions\<close>, or the empty object
  when it supplies none.
\<close>

definition config_stageFunctions :: "'w host \<Rightarrow> jsval \<Rightarrow> jsval" where
  "config_stageFunctions h config = js_or (get_prop h config ''stageFunctions'') (JObj [])"

text \<open>
  A configuration is rejected when it is null or not an object, or \<^verbatim>\<open>stages\<close> is missing
  or not a non-empty sequence, or the observer is not callable, or some key of the stage
  functions is not a member of \<^verbatim>\<open>stages\<close>, or some value of the stage functions is not
  callable.
\<close>

definition spec_rejects :: "'w host \<Rightarrow> jsval \<Rightarrow> bool" where
  "spec_rejects h config =
    (config = JNull \<or> typeof_js config \<noteq> ''object''
     \<or> \<not> (isArray (get_prop h config ''stages'') \<and> elems (get_prop h config ''stages'') \<noteq> [])
     \<or> typeof_js (get_prop h config ''updateUI'') \<noteq> ''function''
     \<or> (\<exists>k \<in> set (enum_keys h (config_stageFunctions h config)).
           JStr k \<notin> set (elems (get_prop h config ''stages'')))
     \<or> (\<exists>k \<in> set (enum_keys h (config_stageFunctions h config)).
           typeof_js (get_prop h (config_stageFunctions h config) k) \<noteq> ''function''))"

section \<open>A concrete host and concrete engines\<close>

text \<open>
  The outside world of the examples counts the calls of \<^verbatim>\<open>updateUI\<close>. The user
  functions are
  \<^item> 0: an observer, \<^verbatim>\<open>(state, stage) => { calls++ }\<close>;
  \<^item> 1: \<^verbatim>\<open>(state) => state + 1\<close>;
  \<^item> 2: \<^verbatim>\<open>(state) => {}\<close>, which returns \<^verbatim>\<open>undefined\<close>;
  \<^item> 3: \<^verbatim>\<open>(state) => { throw "boom" }\<close>;
  \<^item> 4: \<^verbatim>\<open>async (state) => { throw "boom" }\<close>, which returns a promise that rejects;
  \<^item> 5: an error handler that raises what it is given, \<^verbatim>\<open>(error) => { throw error }\<close>;
  \<^item> any other: \<^verbatim>\<open>() => {}\<close>.
  Of the built-ins only \<^verbatim>\<open>toString\<close> and \<^verbatim>\<open>toLocaleString\<close> are interpreted: called on a
  plain object they return \<^verbatim>\<open>"[object Object]"\<close>. The others are not used below.
\<close>

definition demo_call :: "fn \<Rightarrow> jsval list \<Rightarrow> nat \<Rightarrow> jsval outcome \<times> nat" where
  "demo_call f args calls =
    (case f of
       Native name \<Rightarrow>
         (if name = ''toString'' \<or> name = ''toLocaleString''
          then (Returned (JStr ''[object Object]''), calls)
          else (Raised (JStr ''built-in not interpreted''), calls))
     | User k \<Rightarrow>
         (if k = 0 then (Returned JUndefined, Suc calls)
          else if k = 1 then
            (case args of
               JNum c # rest \<Rightarrow> (Returned (JNum (c + 1)), calls)
             | _ \<Rightarrow> (Returned JUndefined, calls))
          else if k = 2 then (Returned JUndefined, calls)
          else if k = 3 then (Raised (JStr ''boom''), calls)
          else if k = 4 then (Returned (JPromise (Raised (JStr ''boom''))), calls)
          else if k = 5 then
            (case args of
               err # rest \<Rightarrow> (Raised err, calls)
             | [] \<Rightarrow> (Raised JUndefined, calls))
          else (Returned JUndefined, calls)))"

definition demo_host :: "nat host" where
  "demo_host =
    \<lparr>call = demo_call,
     to_key = (\<lambda>v. ''[object Object]''),
     host_get = (\<lambda>v k. JUndefined),
     host_keys = (\<lambda>v. [])\<rparr>"

definition world0 :: "nat world" where
  "world0 = \<lparr>outside = 0, timers = [], last_timer = 0, trace = []\<rparr>"

definition four_stages :: jsval where
  "four_stages = JArr [JStr ''Mapping'', JStr ''Iteration'', JStr ''Checking'', JStr ''Transformation'']"

text \<open>
  \<^verbatim>\<open>{stages: [...], initialState: 5, updateUI: f0, stageFunctions: {Mapping: f1, Iteration: f2}}\<close>
\<close>

definition counter_config :: jsval where
  "counter_config =
    JObj [(''stages'', four_stages), (''initialState'', JNum 5), (''updateUI'', JFun (User 0)),
          (''stageFunctions'', JObj [(''Mapping'', JFun (User 1)), (''Iteration'', JFun (User 2))])]"

definition counter_engine :: engine where
  "counter_engine =
    \<lparr>stages = elems four_stages, currentState = JNum 5, currentStageIndex = 0,
     updateUI = JFun (User 0),
     stageFunctions = JObj [(''Mapping'', JFun (User 1)), (''Iteration'', JFun (User 2))],
     intervalId = None, interval = JNum 0, errorHandler = JNull, previousState = JNull,
     initialState = JUndefined\<rparr>"

text \<open>
  \<^verbatim>\<open>{stages: [...], initialState: 5, updateUI: f0, stageFunctions: {Mapping: f3}, errorHandler: f5}\<close>:
  the first stage always fails, and the error handler raises the error again.
\<close>

definition rethrow_config :: jsval where
  "rethrow_config =
    JObj [(''stages'', four_stages), (''initialState'', JNum 5), (''updateUI'', JFun (User 0)),
          (''stageFunctions'', JObj [(''Mapping'', JFun (User 3))]),
          (''errorHandler'', JFun (User 5))]"

definition rethrow_engine :: engine where
  "rethrow_engine =
    \<lparr>stages = elems four_stages, currentState = JNum 5, currentStageIndex = 0,
     updateUI = JFun (User 0), stageFunctions = JObj [(''Mapping'', JFun (User 3))],
     intervalId = None, interval = JNum 0, errorHandler = JFun (User 5), previousState = JNull,
     initialState = JUndefined\<rparr>"

text \<open>
  \<^verbatim>\<open>{stages: [...], initialState: 5, updateUI: f0, stageFunctions: {Mapping: f3}}\<close>: the
  first stage always fails and no error handler is configured.
\<close>

definition failing_config :: jsval where
  "failing_config =
    JObj [(''stages'', four_stages), (''initialState'', JNum 5), (''updateUI'', JFun (User 0)),
          (''stageFunctions'', JObj [(''Mapping'', JFun (User 3))])]"

definition failing_engine :: engine where
  "failing_engine =
    \<lparr>stages = elems four_stages, currentState = JNum 5, currentStageIndex = 0,
     updateUI = JFun (User 0), stageFunctions = JObj [(''Mapping'', JFun (User 3))],
     intervalId = None, interval = JNum 0, errorHandler = JNull, previousState = JNull,
     initialState = JUndefined\<rparr>"

text \<open>
  \<^verbatim>\<open>{stages: [...], initialState: 5, updateUI: f0, stageFunctions: {Mapping: f3}, errorHandler: f6}\<close>:
  the first stage always fails, and the error handler returns.
\<close>

definition handled_config :: jsval where
  "handled_config =
    JObj [(''stages'', four_stages), (''initialState'', JNum 5), (''updateUI'', JFun (User 0)),
          (''stageFunctions'', JObj [(''Mapping'', JFun (User 3))]),
          (''errorHandler'', JFun (User 6))]"

definition handled_engine :: engine where
  "handled_engine =
    \<lparr>stages = elems four_stages, currentState = JNum 5, currentStageIndex = 0,
     updateUI = JFun (User 0), stageFunctions = JObj [(''Mapping'', JFun (User 3))],
     intervalId = None, interval = JNum 0, errorHandler = JFun (User 6), previousState = JNull,
     initialState = JUndefined\<rparr>"

text \<open>
  \<^verbatim>\<open>{stages: ["toString"], initialState: 5, updateUI: f0}\<close>: one stage, no stage
  functions.
\<close>

definition tostring_config :: jsval where
  "tostring_config =
    JObj [(''stages'', JArr [JStr ''toString'']), (''initialState'', JNum 5),
          (''updateUI'', JFun (User 0))]"

definition tostring_engine :: engine where
  "tostring_engine =
    \<lparr>stages = [JStr ''toString''], currentState = JNum 5, currentStageIndex = 0,
     updateUI = JFun (User 0), stageFunctions = JObj [],
     intervalId = None, interval = JNum 0, errorHandler = JNull, previousState = JNull,
     initialState = JUndefined\<rparr>"

text \<open>
  \<^verbatim>\<open>{stages: [...], initialState: 5, updateUI: f0, stageFunctions: {Mapping: f4}, errorHandler: f6}\<close>:
  the first stage is an \<^verbatim>\<open>async\<close> function whose promise rejects.
\<close>

definition async_config :: jsval where
  "async_config =
    JObj [(''stages'', four_stages), (''initialState'', JNum 5), (''updateUI'', JFun (User 0)),
          (''stageFunctions'', JObj [(''Mapping'', JFun (User 4))]),
          (''errorHandler'', JFun (User 6))]"

definition async_engine :: engine where
  "async_engine =
    \<lparr>stages = elems four_stages, currentState = JNum 5, currentStageIndex = 0,
     updateUI = JFun (User 0), stageFunctions = JObj [(''Mapping'', JFun (User 4))],
     intervalId = None, interval = JNum 0, errorHandler = JFun (User 6), previousState = JNull,
     initialState = JUndefined\<rparr>"

subsection \<open>A host whose outside world is a store of objects\<close>

text \<open>
  The outside world of these examples is the store of the mutable objects: it maps a
  reference to the properties of the object it names. \<open>deref\<close> is what a reader of a
  value sees in a given store. The user functions are
  \<^item> 0: an observer, \<^verbatim>\<open>(state, stage) => {}\<close>;
  \<^item> 1: \<^verbatim>\<open>(state) => { state.count += 1 }\<close>, which changes the object it is given and
    returns \<^verbatim>\<open>undefined\<close>;
  \<^item> 2: \<^verbatim>\<open>(state) => { state.count += 1; throw "boom" }\<close>;
  \<^item> 3: \<^verbatim>\<open>(state) => { state.count += 1; return state }\<close>;
  \<^item> any other: \<^verbatim>\<open>() => {}\<close>.
\<close>

type_synonym store = "nat \<Rightarrow> (string \<times> jsval) list"

definition deref :: "store \<Rightarrow> jsval \<Rightarrow> jsval" where
  "deref st v = (case v of JRef a \<Rightarrow> JObj (st a) | _ \<Rightarrow> v)"

text \<open>\<^verbatim>\<open>obj.count += 1\<close> on the properties of \<^verbatim>\<open>obj\<close>\<close>

fun increment_count :: "(string \<times> jsval) list \<Rightarrow> (string \<times> jsval) list" where
  "increment_count [] = []"
| "increment_count ((k, v) # ps) =
    (if k = ''count''
     then (k, (case v of JNum n \<Rightarrow> JNum (n + 1) | _ \<Rightarrow> v)) # ps
     else (k, v) # increment_count ps)"

definition increment_in_place :: "jsval list \<Rightarrow> store \<Rightarrow> store" where
  "increment_in_place args st =
    (case args of
       JRef a # rest \<Rightarrow> st(a := increment_count (st a))
     | _ \<Rightarrow> st)"

definition store_call :: "fn \<Rightarrow> jsval list \<Rightarrow> store \<Rightarrow> jsval outcome \<times> store" where
  "store_call f args st =
    (case f of
       Native name \<Rightarrow> (Raised (JStr ''built-in not interpreted''), st)
     | User k \<Rightarrow>
         (if k = 1 then (Returned JUndefined, increment_in_place args st)
          else if k = 2 then (Raised (JStr ''boom''), increment_in_place args st)
          else if k = 3 then
            (case args of
               v # rest \<Rightarrow> (Returned v, increment_in_place args st)
             | [] \<Rightarrow> (Returned JUndefined, st))
          else (Returned JUndefined, st)))"

definition store_host :: "store host" where
  "store_host =
    \<lparr>call = store_call,
     to_key = (\<lambda>v. ''[object Object]''),
     host_get = (\<lambda>v k. JUndefined),
     host_keys = (\<lambda>v. [])\<rparr>"

text \<open>The store in which reference 1 names the object \<^verbatim>\<open>{count: 0}\<close>\<close>

definition store0 :: store where
  "store0 = (\<lambda>a. [])(1 := [(''count'', JNum 0)])"

definition store_world0 :: "store world" where
  "store_world0 = \<lparr>outside = store0, timers = [], last_timer = 0, trace = []\<rparr>"

text \<open>
  \<^verbatim>\<open>{stages: [...], initialState: s, updateUI: f0, stageFunctions: {Mapping: f1, Iteration: f3}}\<close>
  where \<^verbatim>\<open>s\<close> is the object \<^verbatim>\<open>{count: 0}\<close> of reference 1
\<close>

definition mutating_config :: jsval where
  "mutating_config =
    JObj [(''stages'', four_stages), (''initialState'', JRef 1), (''updateUI'', JFun (User 0)),
          (''stageFunctions'', JObj [(''Mapping'', JFun (User 1)), (''Iteration'', JFun (User 3))])]"

definition mutating_engine :: engine where
  "mutating_engine =
    \<lparr>stages = elems four_stages, currentState = JRef 1, currentStageIndex = 0,
     updateUI = JFun (User 0),
     stageFunctions = JObj [(''Mapping'', JFun (User 1)), (''Iteration'', JFun (User 3))],
     intervalId = None, interval = JNum 0, errorHandler = JNull, previousState = JNull,
     initialState = JUndefined\<rparr>"

text \<open>
  \<^verbatim>\<open>{stages: [...], initialState: s, updateUI: f0, stageFunctions: {Mapping: f2}}\<close>: the
  first stage changes the state object and then fails.
\<close>

definition spoiling_config :: jsval where
  "spoiling_config =
    JObj [(''stages'', four_stages), (''initialState'', JRef 1), (''updateUI'', JFun (User 0)),
          (''stageFunctions'', JObj [(''Mapping'', JFun (User 2))])]"

definition spoiling_engine :: engine where
  "spoiling_engine =
    \<lparr>stages = elems four_stages, currentState = JRef 1, currentStageIndex = 0,
     updateUI = JFun (User 0), stageFunctions = JObj [(''Mapping'', JFun (User 2))],
     intervalId = None, interval = JNum 0, errorHandler = JNull, previousState = JNull,
     initialState = JUndefined\<rparr>"

section \<open>Basic facts about the model\<close>

lemma typeof_function: "typeof_js v = ''function'' \<Longrightarrow> \<exists>g. v = JFun g"
  by (cases v) auto

lemma notify_engine: "fst (snd (notify h e wd)) = e"
  by (auto simp: notify_def split: prod.splits outcome.splits)

lemma notify_world:
  assumes "typeof_js (updateUI e) = ''function''"
  shows "trace (snd (snd (notify h e wd)))
           = trace wd @ [Called Observer [currentState e, getCurrentStage e]]
         \<and> timers (snd (snd (notify h e wd))) = timers wd
         \<and> last_timer (snd (snd (notify h e wd))) = last_timer wd"
proof -
  obtain g where g: "updateUI e = JFun g"
    using assms typeof_function by blast
  show ?thesis
    by (auto simp: notify_def invoke_def g split: prod.splits outcome.splits)
qed

lemma wf_counter_engine: "wf_engine counter_engine"
  by (simp add: wf_engine_def counter_engine_def four_stages_def)

section \<open>State replacement\<close>

text \<open>
  C7. On every engine the constructor can have built, \<^verbatim>\<open>setState(v)\<close> replaces
  \<open>currentState\<close> by \<open>v\<close> and changes no other field of the engine, in particular
  neither \<open>previousState\<close> nor \<open>currentStageIndex\<close>; and it calls the observer exactly
  once, with \<open>v\<close> and the name of the unchanged current stage: the trace grows by that
  one call and nothing else.
\<close>

theorem setState_replaces_state_only:
  assumes "wf_engine e"
  shows "case setState h v e wd of
           (c, e', wd') \<Rightarrow>
             e' = e\<lparr>currentState := v\<rparr>
             \<and> previousState e' = previousState e
             \<and> currentStageIndex e' = currentStageIndex e
             \<and> trace wd' = trace wd @ [Called Observer [v, getCurrentStage e]]"
proof -
  let ?e = "e\<lparr>currentState := v\<rparr>"
  have f: "typeof_js (updateUI ?e) = ''function''"
    using assms by (simp add: wf_engine_def)
  have st: "getCurrentStage ?e = getCurrentStage e"
    by (simp add: getCurrentStage_def)
  obtain c e' wd' where r: "setState h v e wd = (c, e', wd')"
    by (cases "setState h v e wd") auto
  have "e' = ?e"
    using notify_engine[of h ?e wd] r by (simp add: setState_def)
  moreover have "trace wd' = trace wd @ [Called Observer [v, getCurrentStage e]]"
    using notify_world[OF f, where h = h and wd = wd] r st by (simp add: setState_def)
  ultimately show ?thesis
    using r by simp
qed

theorem setState_replaces_state_only_witness:
  "wf_engine counter_engine
   \<and> setState demo_host (JNum 9) counter_engine world0
       = (Normal, counter_engine\<lparr>currentState := JNum 9\<rparr>,
          world0\<lparr>outside := 1, trace := [Called Observer [JNum 9, JStr ''Mapping'']]\<rparr>)"
proof -
  have ev: "setState demo_host (JNum 9) counter_engine world0
       = (Normal, counter_engine\<lparr>currentState := JNum 9\<rparr>,
          world0\<lparr>outside := 1, trace := [Called Observer [JNum 9, JStr ''Mapping'']]\<rparr>)"
    by (simp add: setState_def notify_def invoke_def demo_host_def demo_call_def world0_def
        getCurrentStage_def counter_engine_def four_stages_def)
  from setState_replaces_state_only[where e = counter_engine and h = demo_host
      and v = "JNum 9" and wd = world0, OF wf_counter_engine] wf_counter_engine ev
  show ?thesis by simp
qed

section \<open>Advancing a stage\<close>

lemma observer_calls_append [simp]:
  "observer_calls (xs @ ys) = observer_calls xs @ observer_calls ys"
  by (simp add: observer_calls_def)


lemma observer_calls_Nil [simp]: "observer_calls [] = []"
  by (simp add: observer_calls_def)

lemma invoke_fun:
  "invoke h r (JFun g) args wd =
     (fst (call h g args (outside wd)),
      wd\<lparr>outside := snd (call h g args (outside wd)), trace := trace wd @ [Called r args]\<rparr>)"
  by (simp add: invoke_def split: prod.splits)


lemma nextStage_raised:
  assumes "truthy (get_prop h (stageFunctions e) (prop_key h (getCurrentStage e)))"
    and "invoke h Handler (get_prop h (stageFunctions e) (prop_key h (getCurrentStage e)))
           [currentState e] wd = (Raised err, wd1)"
  shows "nextStage h e wd =
     (if truthy (errorHandler e) then
        (case invoke h ErrHandler (errorHandler e) [err, getCurrentStage e, currentState e] wd1 of
           (Returned v, wd2) \<Rightarrow> (Normal, e, wd2)
         | (Raised err2, wd2) \<Rightarrow> (Throw err2, e, wd2))
      else (Normal, e, console_error (getCurrentStage e) err wd1))"
  using assms by (simp add: nextStage_def Let_def)

lemma nextStage_returned:
  assumes "truthy (get_prop h (stageFunctions e) (prop_key h (getCurrentStage e)))"
    and "invoke h Handler (get_prop h (stageFunctions e) (prop_key h (getCurrentStage e)))
           [currentState e] wd = (Returned v, wd1)"
  shows "nextStage h e wd =
     move_on h (if v \<noteq> JUndefined then e\<lparr>previousState := currentState e, currentState := v\<rparr>
                else e\<lparr>previousState := currentState e\<rparr>) wd1"
  using assms by (simp add: nextStage_def Let_def)

lemma nextStage_no_handler:
  assumes "\<not> truthy (get_prop h (stageFunctions e) (prop_key h (getCurrentStage e)))"
  shows "nextStage h e wd = move_on h e wd"
  using assms by (simp add: nextStage_def Let_def)

lemma move_on_engine:
  "fst (snd (move_on h e wd)) = e\<lparr>currentStageIndex := (currentStageIndex e + 1) mod length (stages e)\<rparr>"
  by (simp add: move_on_def notify_engine)

lemma move_on_world:
  assumes "wf_engine e"
  shows "trace (snd (snd (move_on h e wd)))
           = trace wd @ [Called Observer [currentState e,
                           stages e ! ((currentStageIndex e + 1) mod length (stages e))]]
         \<and> timers (snd (snd (move_on h e wd))) = timers wd
         \<and> last_timer (snd (snd (move_on h e wd))) = last_timer wd"
proof -
  let ?e = "e\<lparr>currentStageIndex := (currentStageIndex e + 1) mod length (stages e)\<rparr>"
  have f: "typeof_js (updateUI ?e) = ''function''"
    using assms by (simp add: wf_engine_def)
  have "length (stages e) > 0" using assms by (simp add: wf_engine_def)
  then have st: "getCurrentStage ?e = stages e ! ((currentStageIndex e + 1) mod length (stages e))"
    by (simp add: getCurrentStage_def)
  show ?thesis
    using notify_world[OF f, where h = h and wd = wd] st by (simp add: move_on_def)
qed

lemma nextStage_returned_result:
  assumes "wf_engine e"
    and "get_prop h (stageFunctions e) (prop_key h (getCurrentStage e)) = JFun g"
    and "call h g [currentState e] (outside wd) = (Returned v, x)"
    and "e2 = e\<lparr>previousState := currentState e,
                  currentState := (if v = JUndefined then currentState e else v)\<rparr>"
    and "e3 = e2\<lparr>currentStageIndex := (currentStageIndex e + 1) mod length (stages e)\<rparr>"
  shows "fst (snd (nextStage h e wd)) = e3"
    and "trace (snd (snd (nextStage h e wd)))
          = trace wd @ [Called Handler [currentState e],
                        Called Observer [currentState e3, getCurrentStage e3]]"
    and "getCurrentStage e3 = stages e ! ((currentStageIndex e + 1) mod length (stages e))"
proof -
  let ?f = "get_prop h (stageFunctions e) (prop_key h (getCurrentStage e))"
  let ?wd1 = "wd\<lparr>outside := x, trace := trace wd @ [Called Handler [currentState e]]\<rparr>"
  have t: "truthy ?f"
    using assms(2) by simp
  have i: "invoke h Handler ?f [currentState e] wd = (Returned v, ?wd1)"
    using assms(2,3) by (simp add: invoke_fun)
  have "(if v \<noteq> JUndefined then e\<lparr>previousState := currentState e, currentState := v\<rparr>
         else e\<lparr>previousState := currentState e\<rparr>) = e2"
    using assms(4) by simp
  then have n: "nextStage h e wd = move_on h e2 ?wd1"
    using nextStage_returned[OF t i] by simp
  have wf2: "wf_engine e2"
    using assms(1,4) by (simp add: wf_engine_def)
  have same: "currentStageIndex e2 = currentStageIndex e" "stages e2 = stages e"
    using assms(4) by simp_all
  have len: "0 < length (stages e)"
    using assms(1) by (simp add: wf_engine_def)
  show "fst (snd (nextStage h e wd)) = e3"
    using move_on_engine[of h e2 ?wd1] n same assms(5) by simp
  show g: "getCurrentStage e3 = stages e ! ((currentStageIndex e + 1) mod length (stages e))"
    using assms(4,5) len by (simp add: getCurrentStage_def)
  show "trace (snd (snd (nextStage h e wd)))
          = trace wd @ [Called Handler [currentState e],
                        Called Observer [currentState e3, getCurrentStage e3]]"
    using move_on_world[OF wf2, where h = h and wd = ?wd1] n same g assms(5) by simp
qed

lemma notify_outside:
  assumes "updateUI e = JFun u"
  shows "outside (snd (snd (notify h e wd)))
           = snd (call h u [currentState e, getCurrentStage e] (outside wd))"
  by (auto simp: notify_def invoke_def assms split: prod.splits outcome.splits)

lemma nextStage_returned_outside:
  assumes "get_prop h (stageFunctions e) (prop_key h (getCurrentStage e)) = JFun g"
    and "call h g [currentState e] (outside wd) = (Returned v, x)"
    and "updateUI e = JFun u"
    and "e' = fst (snd (nextStage h e wd))"
  shows "outside (snd (snd (nextStage h e wd)))
           = snd (call h u [currentState e', getCurrentStage e'] x)"
proof -
  let ?f = "get_prop h (stageFunctions e) (prop_key h (getCurrentStage e))"
  let ?wd1 = "wd\<lparr>outside := x, trace := trace wd @ [Called Handler [currentState e]]\<rparr>"
  let ?e2 = "if v \<noteq> JUndefined then e\<lparr>previousState := currentState e, currentState := v\<rparr>
             else e\<lparr>previousState := currentState e\<rparr>"
  let ?e3 = "?e2\<lparr>currentStageIndex := (currentStageIndex ?e2 + 1) mod length (stages ?e2)\<rparr>"
  have t: "truthy ?f"
    using assms(1) by simp
  have i: "invoke h Handler ?f [currentState e] wd = (Returned v, ?wd1)"
    using assms(1,2) by (simp add: invoke_fun)
  have n: "nextStage h e wd = notify h ?e3 ?wd1"
    using nextStage_returned[OF t i] by (simp add: move_on_def)
  have e': "e' = ?e3"
    using assms(4) n notify_engine[of h ?e3 ?wd1] by simp
  have u: "updateUI ?e3 = JFun u"
    using assms(3) by simp
  show ?thesis
    using notify_outside[OF u, of h ?wd1] n e' by simp
qed

text \<open>
  C3, as the code has it. When the function found for the current stage returns,
  \<^verbatim>\<open>nextStage\<close> stores in \<open>previousState\<close> what \<open>currentState\<close> held at the call: the same
  value, or for an object the same reference, hence the object the function was handed,
  as the function left it. It stores in \<open>currentState\<close> the value returned, or leaves it as
  it was when the function returns \<^verbatim>\<open>undefined\<close>, so that \<open>previousState\<close> and
  \<open>currentState\<close> are then one and the same. In both cases it then moves the index forward
  by one modulo the number of stages and calls the observer with the resulting state and
  the name of the new current stage. No other field of the engine changes, and the world
  outside the engine is what the stage function and then the observer made of it.
\<close>

theorem nextStage_handler_returns:
  assumes "wf_engine e"
    and "get_prop h (stageFunctions e) (prop_key h (getCurrentStage e)) = JFun g"
    and "call h g [currentState e] (outside wd) = (Returned v, x)"
  shows "case nextStage h e wd of
           (c, e', wd') \<Rightarrow>
             e' = e\<lparr>previousState := currentState e,
                    currentState := (if v = JUndefined then currentState e else v),
                    currentStageIndex := (currentStageIndex e + 1) mod length (stages e)\<rparr>
             \<and> getCurrentStage e' = stages e ! ((currentStageIndex e + 1) mod length (stages e))
             \<and> trace wd' = trace wd @ [Called Handler [currentState e],
                                        Called Observer [currentState e', getCurrentStage e']]
             \<and> (v = JUndefined \<longrightarrow> currentState e' = previousState e')
             \<and> (\<forall>u. updateUI e = JFun u \<longrightarrow>
                   outside wd' = snd (call h u [currentState e', getCurrentStage e'] x))"
proof -
  obtain c e' wd' where r: "nextStage h e wd = (c, e', wd')"
    using prod_cases3 by blast
  have a: "e' = e\<lparr>previousState := currentState e,
                    currentState := (if v = JUndefined then currentState e else v),
                    currentStageIndex := (currentStageIndex e + 1) mod length (stages e)\<rparr>
        \<and> getCurrentStage e' = stages e ! ((currentStageIndex e + 1) mod length (stages e))
        \<and> trace wd' = trace wd @ [Called Handler [currentState e],
                                   Called Observer [currentState e', getCurrentStage e']]"
    using nextStage_returned_result[OF assms refl refl] r by simp
  then have b: "v = JUndefined \<longrightarrow> currentState e' = previousState e'"
    by simp
  have c: "\<forall>u. updateUI e = JFun u \<longrightarrow>
             outside wd' = snd (call h u [currentState e', getCurrentStage e'] x)"
    using nextStage_returned_outside[OF assms(2,3), where e' = e'] r by simp
  show ?thesis
    unfolding r prod.case using a b c by blast
qed

lemma construct_mutating: "construct store_host mutating_config = Inr mutating_engine"
  by (simp add: construct_def mutating_config_def mutating_engine_def get_prop_def four_stages_def
      js_or_def enum_keys_def includes_js_def object_prototype_def)

lemma wf_mutating_engine: "wf_engine mutating_engine"
  by (simp add: wf_engine_def mutating_engine_def four_stages_def)

lemma mutating_lookup:
  "get_prop store_host (stageFunctions mutating_engine)
     (prop_key store_host (getCurrentStage mutating_engine)) = JFun (User 1)"
  by (simp add: get_prop_def prop_key_def getCurrentStage_def mutating_engine_def four_stages_def)

lemma mutating_call:
  "call store_host (User 1) [currentState mutating_engine] (outside store_world0)
     = (Returned JUndefined, store0(1 := [(''count'', JNum 1)]))"
  by (simp add: store_host_def store_call_def increment_in_place_def mutating_engine_def
      store_world0_def store0_def)

lemma mutating_nextStage:
  "nextStage store_host mutating_engine store_world0
     = (Normal,
        mutating_engine\<lparr>previousState := JRef 1, currentStageIndex := 1\<rparr>,
        store_world0\<lparr>outside := store0(1 := [(''count'', JNum 1)]),
                      trace := [Called Handler [JRef 1],
                                Called Observer [JRef 1, JStr ''Iteration'']]\<rparr>)"
  by (simp add: nextStage_def move_on_def notify_def invoke_def get_prop_def prop_key_def
      getCurrentStage_def store_host_def store_call_def increment_in_place_def
      mutating_engine_def four_stages_def store_world0_def store0_def Let_def)

theorem nextStage_handler_returns_witness:
  "(wf_engine counter_engine
   \<and> get_prop demo_host (stageFunctions counter_engine)
         (prop_key demo_host (getCurrentStage counter_engine)) = JFun (User 1)
   \<and> call demo_host (User 1) [currentState counter_engine] (outside world0) = (Returned (JNum 6), 0)
   \<and> nextStage demo_host counter_engine world0
       = (Normal,
          counter_engine\<lparr>previousState := JNum 5, currentState := JNum 6, currentStageIndex := 1\<rparr>,
          world0\<lparr>outside := 1,
                 trace := [Called Handler [JNum 5], Called Observer [JNum 6, JStr ''Iteration'']]\<rparr>)
   \<and> wf_engine (counter_engine\<lparr>currentStageIndex := 1\<rparr>)
   \<and> get_prop demo_host (stageFunctions (counter_engine\<lparr>currentStageIndex := 1\<rparr>))
         (prop_key demo_host (getCurrentStage (counter_engine\<lparr>currentStageIndex := 1\<rparr>)))
       = JFun (User 2)
   \<and> call demo_host (User 2) [currentState (counter_engine\<lparr>currentStageIndex := 1\<rparr>)]
         (outside world0) = (Returned JUndefined, 0)
   \<and> nextStage demo_host (counter_engine\<lparr>currentStageIndex := 1\<rparr>) world0
       = (Normal,
          counter_engine\<lparr>previousState := JNum 5, currentStageIndex := 2\<rparr>,
          world0\<lparr>outside := 1,
                 trace := [Called Handler [JNum 5], Called Observer [JNum 5, JStr ''Checking'']]\<rparr>))
   \<and> (wf_engine mutating_engine
   \<and> get_prop store_host (stageFunctions mutating_engine)
         (prop_key store_host (getCurrentStage mutating_engine)) = JFun (User 1)
   \<and> call store_host (User 1) [currentState mutating_engine] (outside store_world0)
       = (Returned JUndefined, store0(1 := [(''count'', JNum 1)]))
   \<and> previousState (fst (snd (nextStage store_host mutating_engine store_world0))) = JRef 1
   \<and> currentState (fst (snd (nextStage store_host mutating_engine store_world0))) = JRef 1
   \<and> currentStageIndex (fst (snd (nextStage store_host mutating_engine store_world0))) = 1
   \<and> outside (snd (snd (nextStage store_host mutating_engine store_world0)))
       = store0(1 := [(''count'', JNum 1)]))"
proof -
  let ?e1 = "counter_engine\<lparr>currentStageIndex := 1\<rparr>"
  have l: "get_prop demo_host (stageFunctions counter_engine)
         (prop_key demo_host (getCurrentStage counter_engine)) = JFun (User 1)"
    by (simp add: get_prop_def prop_key_def getCurrentStage_def counter_engine_def four_stages_def)
  have c: "call demo_host (User 1) [currentState counter_engine] (outside world0) = (Returned (JNum 6), 0)"
    by (simp add: demo_host_def demo_call_def counter_engine_def world0_def)
  have ev: "nextStage demo_host counter_engine world0
       = (Normal,
          counter_engine\<lparr>previousState := JNum 5, currentState := JNum 6, currentStageIndex := 1\<rparr>,
          world0\<lparr>outside := 1,
                 trace := [Called Handler [JNum 5], Called Observer [JNum 6, JStr ''Iteration'']]\<rparr>)"
    by (simp add: nextStage_def move_on_def notify_def invoke_def get_prop_def prop_key_def
        getCurrentStage_def demo_host_def demo_call_def counter_engine_def four_stages_def
        world0_def Let_def)
  have wf1: "wf_engine ?e1"
    by (simp add: wf_engine_def counter_engine_def four_stages_def)
  have l1: "get_prop demo_host (stageFunctions ?e1) (prop_key demo_host (getCurrentStage ?e1))
              = JFun (User 2)"
    by (simp add: get_prop_def prop_key_def getCurrentStage_def counter_engine_def four_stages_def)
  have c1: "call demo_host (User 2) [currentState ?e1] (outside world0) = (Returned JUndefined, 0)"
    by (simp add: demo_host_def demo_call_def counter_engine_def world0_def)
  have ev1: "nextStage demo_host ?e1 world0
       = (Normal,
          counter_engine\<lparr>previousState := JNum 5, currentStageIndex := 2\<rparr>,
          world0\<lparr>outside := 1,
                 trace := [Called Handler [JNum 5], Called Observer [JNum 5, JStr ''Checking'']]\<rparr>)"
    by (simp add: nextStage_def move_on_def notify_def invoke_def get_prop_def prop_key_def
        getCurrentStage_def demo_host_def demo_call_def counter_engine_def four_stages_def
        world0_def Let_def)
  have plain: "wf_engine counter_engine
     \<and> get_prop demo_host (stageFunctions counter_engine)
           (prop_key demo_host (getCurrentStage counter_engine)) = JFun (User 1)
     \<and> call demo_host (User 1) [currentState counter_engine] (outside world0) = (Returned (JNum 6), 0)
     \<and> nextStage demo_host counter_engine world0
         = (Normal,
            counter_engine\<lparr>previousState := JNum 5, currentState := JNum 6, currentStageIndex := 1\<rparr>,
            world0\<lparr>outside := 1,
                   trace := [Called Handler [JNum 5], Called Observer [JNum 6, JStr ''Iteration'']]\<rparr>)
     \<and> wf_engine (counter_engine\<lparr>currentStageIndex := 1\<rparr>)
     \<and> get_prop demo_host (stageFunctions (counter_engine\<lparr>currentStageIndex := 1\<rparr>))
           (prop_key demo_host (getCurrentStage (counter_engine\<lparr>currentStageIndex := 1\<rparr>)))
         = JFun (User 2)
     \<and> call demo_host (User 2) [currentState (counter_engine\<lparr>currentStageIndex := 1\<rparr>)]
           (outside world0) = (Returned JUndefined, 0)
     \<and> nextStage demo_host (counter_engine\<lparr>currentStageIndex := 1\<rparr>) world0
         = (Normal,
            counter_engine\<lparr>previousState := JNum 5, currentStageIndex := 2\<rparr>,
            world0\<lparr>outside := 1,
                   trace := [Called Handler [JNum 5], Called Observer [JNum 5, JStr ''Checking'']]\<rparr>)"
    using nextStage_handler_returns[OF wf_counter_engine l c]
      nextStage_handler_returns[OF wf1 l1 c1] wf_counter_engine l c ev wf1 l1 c1 ev1
    by (intro conjI) assumption+
  have shared: "wf_engine mutating_engine
     \<and> get_prop store_host (stageFunctions mutating_engine)
           (prop_key store_host (getCurrentStage mutating_engine)) = JFun (User 1)
     \<and> call store_host (User 1) [currentState mutating_engine] (outside store_world0)
         = (Returned JUndefined, store0(1 := [(''count'', JNum 1)]))
     \<and> previousState (fst (snd (nextStage store_host mutating_engine store_world0))) = JRef 1
     \<and> currentState (fst (snd (nextStage store_host mutating_engine store_world0))) = JRef 1
     \<and> currentStageIndex (fst (snd (nextStage store_host mutating_engine store_world0))) = 1
     \<and> outside (snd (snd (nextStage store_host mutating_engine store_world0)))
         = store0(1 := [(''count'', JNum 1)])"
  proof -
    have facts: "currentState mutating_engine = JRef 1" "currentStageIndex mutating_engine = 0"
      "length (stages mutating_engine) = 4" "updateUI mutating_engine = JFun (User 0)"
      by (simp_all add: mutating_engine_def four_stages_def)
    have obs: "\<And>args st. call store_host (User 0) args st = (Returned JUndefined, st)"
      by (simp add: store_host_def store_call_def)
    obtain c e' wd' where r: "nextStage store_host mutating_engine store_world0 = (c, e', wd')"
      using prod_cases3 by blast
    have "previousState e' = JRef 1 \<and> currentState e' = JRef 1 \<and> currentStageIndex e' = 1
          \<and> outside wd' = store0(1 := [(''count'', JNum 1)])"
      using nextStage_handler_returns[OF wf_mutating_engine mutating_lookup mutating_call,
          unfolded r prod.case] facts obs
      by simp
    then show ?thesis
      using wf_mutating_engine mutating_lookup mutating_call unfolding r by simp
  qed
  show ?thesis
    using plain shared by (rule conjI)
qed

text \<open>
  C3, as stated, fails where it says that \<open>previousState\<close> is the state before the call.
  The first stage of \<open>mutating_engine\<close> is \<^verbatim>\<open>(state) => { state.count += 1 }\<close>, and the
  state is the object \<^verbatim>\<open>{count: 0}\<close>. After \<^verbatim>\<open>nextStage\<close>, \<open>previousState\<close> and
  \<open>currentState\<close> both read \<^verbatim>\<open>{count: 1}\<close>: the state before the call is kept nowhere.
\<close>

theorem previousState_shows_later_mutation:
  "deref (outside store_world0) (currentState mutating_engine) = JObj [(''count'', JNum 0)]
   \<and> call store_host (User 1) [currentState mutating_engine] (outside store_world0)
       = (Returned JUndefined, store0(1 := [(''count'', JNum 1)]))
   \<and> fst (nextStage store_host mutating_engine store_world0) = Normal
   \<and> deref (outside (snd (snd (nextStage store_host mutating_engine store_world0))))
        (previousState (fst (snd (nextStage store_host mutating_engine store_world0))))
       = JObj [(''count'', JNum 1)]
   \<and> deref (outside (snd (snd (nextStage store_host mutating_engine store_world0))))
        (currentState (fst (snd (nextStage store_host mutating_engine store_world0))))
       = JObj [(''count'', JNum 1)]"
proof -
  have before: "deref (outside store_world0) (currentState mutating_engine)
                  = JObj [(''count'', JNum 0)]"
    by (simp add: deref_def mutating_engine_def store_world0_def store0_def)
  have after: "deref (store0(1 := [(''count'', JNum 1)])) (JRef 1) = JObj [(''count'', JNum 1)]"
    "deref (store0(1 := [(''count'', JNum 1)])) (currentState mutating_engine)
       = JObj [(''count'', JNum 1)]"
    by (simp_all add: deref_def mutating_engine_def)
  show ?thesis
    unfolding mutating_nextStage using before mutating_call after by simp
qed

section \<open>A stage function that raises\<close>

lemma nextStage_raised_engine:
  assumes "truthy (get_prop h (stageFunctions e) (prop_key h (getCurrentStage e)))"
    and "invoke h Handler (get_prop h (stageFunctions e) (prop_key h (getCurrentStage e)))
           [currentState e] wd = (Raised err, wd1)"
  shows "fst (snd (nextStage h e wd)) = e"
  by (simp add: nextStage_raised[OF assms] split: prod.splits outcome.splits)







lemma construct_failing: "construct demo_host failing_config = Inr failing_engine"
  by (simp add: construct_def failing_config_def failing_engine_def get_prop_def four_stages_def
      js_or_def enum_keys_def includes_js_def object_prototype_def)


lemma construct_handled: "construct demo_host handled_config = Inr handled_engine"
  by (simp add: construct_def handled_config_def handled_engine_def get_prop_def four_stages_def
      js_or_def enum_keys_def includes_js_def object_prototype_def)





lemma construct_rethrow: "construct demo_host rethrow_config = Inr rethrow_engine"
  by (simp add: construct_def rethrow_config_def rethrow_engine_def get_prop_def four_stages_def
      js_or_def enum_keys_def includes_js_def object_prototype_def)


lemma construct_spoiling: "construct store_host spoiling_config = Inr spoiling_engine"
  by (simp add: construct_def spoiling_config_def spoiling_engine_def get_prop_def four_stages_def
      js_or_def enum_keys_def includes_js_def object_prototype_def)






section \<open>A stage without a stage function\<close>

text \<open>
  When the lookup \<^verbatim>\<open>this.stageFunctions[currentStage]\<close> yields nothing truthy, the state
  stays and the index moves on. For a plain object the lookup yields \<^verbatim>\<open>undefined\<close> when
  the stage name is neither an own key nor a property of \<^verbatim>\<open>Object.prototype\<close>.
\<close>

lemma construct_tostring: "construct demo_host tostring_config = Inr tostring_engine"
  by (simp add: construct_def tostring_config_def tostring_engine_def get_prop_def
      js_or_def enum_keys_def object_prototype_def)

lemma nextStage_without_handler:
  assumes "wf_engine e"
    and "\<not> truthy (get_prop h (stageFunctions e) (prop_key h (getCurrentStage e)))"
  shows "fst (snd (nextStage h e wd))
           = e\<lparr>currentStageIndex := (currentStageIndex e + 1) mod length (stages e)\<rparr>
         \<and> trace (snd (snd (nextStage h e wd)))
           = trace wd @ [Called Observer [currentState e,
                           stages e ! ((currentStageIndex e + 1) mod length (stages e))]]"
  using move_on_engine[of h e wd] move_on_world[OF assms(1), of h wd]
  by (simp add: nextStage_no_handler[OF assms(2)])

lemma plain_lookup_absent:
  assumes "k \<notin> fst ` set ps" and "k \<notin> fst ` set object_prototype"
  shows "get_prop h (JObj ps) k = JUndefined"
proof -
  have "map_of ps k = None" using assms(1) by (simp add: map_of_eq_None_iff)
  moreover have "map_of object_prototype k = None" using assms(2) by (simp add: map_of_eq_None_iff)
  ultimately show ?thesis by (simp add: get_prop_def)
qed

text \<open>
  C9 does not hold of the code. \<open>tostring_engine\<close> is what the constructor builds from
  \<^verbatim>\<open>{stages: ["toString"], initialState: 5, updateUI: f0}\<close>: its stage functions are the
  empty object, so the stage \<^verbatim>\<open>"toString"\<close> has no entry. The test
  \<^verbatim>\<open>if (this.stageFunctions[currentStage])\<close> nevertheless finds the inherited
  \<^verbatim>\<open>Object.prototype.toString\<close>, \<^verbatim>\<open>nextStage\<close> calls it as if it were a stage function,
  and the state \<^verbatim>\<open>5\<close> is replaced by the string \<^verbatim>\<open>"[object Object]"\<close>.
\<close>

theorem nextStage_calls_inherited_toString:
  "enum_keys demo_host (stageFunctions tostring_engine) = []
   \<and> getCurrentStage tostring_engine = JStr ''toString''
   \<and> currentState tostring_engine = JNum 5
   \<and> nextStage demo_host tostring_engine world0
       = (Normal,
          tostring_engine\<lparr>previousState := JNum 5, currentState := JStr ''[object Object]''\<rparr>,
          world0\<lparr>outside := 1,
                 trace := [Called Handler [JNum 5],
                           Called Observer [JStr ''[object Object]'', JStr ''toString'']]\<rparr>)"
  by (simp add: nextStage_def move_on_def notify_def invoke_def get_prop_def prop_key_def
      getCurrentStage_def demo_host_def demo_call_def tostring_engine_def world0_def
      enum_keys_def object_prototype_def Let_def)

section \<open>A stage function that returns a promise\<close>

lemma construct_async: "construct demo_host async_config = Inr async_engine"
  by (simp add: construct_def async_config_def async_engine_def get_prop_def four_stages_def
      js_or_def enum_keys_def includes_js_def object_prototype_def)

text \<open>
  C8 does not hold of the code. The first stage function of \<open>async_engine\<close> is an
  \<^verbatim>\<open>async\<close> function: the call returns at once, with a promise that will reject.
  \<^verbatim>\<open>nextStage\<close> has no \<^verbatim>\<open>await\<close>: it stores the promise as the new state, moves the index
  forward and calls the observer with the promise, all before the promise settles. The
  configured error handler is not called, and nothing of \<^verbatim>\<open>nextStage\<close> is left to run
  when the promise rejects.
\<close>

theorem nextStage_does_not_await:
  "call demo_host (User 4) [currentState async_engine] (outside world0)
     = (Returned (JPromise (Raised (JStr ''boom''))), 0)
   \<and> errorHandler async_engine = JFun (User 6)
   \<and> nextStage demo_host async_engine world0
       = (Normal,
          async_engine\<lparr>previousState := JNum 5,
                        currentState := JPromise (Raised (JStr ''boom'')),
                        currentStageIndex := 1\<rparr>,
          world0\<lparr>outside := 1,
                 trace := [Called Handler [JNum 5],
                           Called Observer [JPromise (Raised (JStr ''boom'')), JStr ''Iteration'']]\<rparr>)"
  by (simp add: nextStage_def move_on_def notify_def invoke_def get_prop_def prop_key_def
      getCurrentStage_def demo_host_def demo_call_def async_engine_def four_stages_def
      world0_def Let_def)

section \<open>Reset\<close>

text \<open>
  \<^verbatim>\<open>reset\<close> sets the index to 0, clears \<open>previousState\<close> and the timer, and copies
  \<^verbatim>\<open>this.initialState\<close> into \<open>currentState\<close>. The constructor stores the configured initial
  state in \<open>currentState\<close> only, so on every engine it builds \<^verbatim>\<open>reset\<close> leaves the current
  state \<^verbatim>\<open>undefined\<close>.
\<close>

lemma construct_counter: "construct demo_host counter_config = Inr counter_engine"
  by (simp add: construct_def counter_config_def counter_engine_def get_prop_def four_stages_def
      js_or_def enum_keys_def includes_js_def object_prototype_def)

lemma construct_initialState:
  "construct h config = Inr e \<Longrightarrow>
     initialState e = JUndefined \<and> currentState e = get_prop h config ''initialState''"
  by (auto simp: construct_def Let_def split: if_splits option.splits)

lemma reset_engine:
  "fst (snd (reset h e wd))
     = e\<lparr>currentStageIndex := 0, currentState := initialState e, previousState := JNull,
          intervalId := None\<rparr>"
  by (cases "intervalId e") (simp_all add: reset_def stopCycle_def notify_engine Let_def)

lemma reset_after_construct:
  "construct h config = Inr e \<Longrightarrow> currentState (fst (snd (reset h e wd))) = JUndefined"
  by (simp add: reset_engine construct_initialState)

text \<open>
  C1 does not hold of the code. \<open>counter_engine\<close> is built from a configuration whose
  \<^verbatim>\<open>initialState\<close> is \<^verbatim>\<open>5\<close>. \<^verbatim>\<open>reset\<close> on it sets \<open>currentState\<close> to \<^verbatim>\<open>undefined\<close>, not
  to \<^verbatim>\<open>5\<close>, and calls the observer with \<^verbatim>\<open>undefined\<close> and the first stage name.
\<close>

theorem reset_loses_configured_state:
  "get_prop demo_host counter_config ''initialState'' = JNum 5
   \<and> currentState counter_engine = JNum 5
   \<and> reset demo_host counter_engine world0
       = (Normal, counter_engine\<lparr>currentState := JUndefined\<rparr>,
          world0\<lparr>outside := 1, trace := [Called Observer [JUndefined, JStr ''Mapping'']]\<rparr>)"
  by (simp add: reset_def stopCycle_def notify_def invoke_def get_prop_def
      getCurrentStage_def demo_host_def demo_call_def counter_engine_def counter_config_def
      four_stages_def world0_def Let_def)

section \<open>The constructor\<close>

lemma validate_None_iff:
  "validate_stageFunctions h stgs sf ks = None \<longleftrightarrow>
     list_all (\<lambda>k. includes_js stgs k \<and> typeof_js (get_prop h sf k) = ''function'') ks"
  by (induction ks) simp_all

lemma construct_Inr_iff:
  "(\<exists>e. construct h config = Inr e) \<longleftrightarrow>
     truthy config \<and> typeof_js config = ''object''
     \<and> isArray (get_prop h config ''stages'') \<and> elems (get_prop h config ''stages'') \<noteq> []
     \<and> typeof_js (get_prop h config ''updateUI'') = ''function''
     \<and> validate_stageFunctions h (elems (get_prop h config ''stages''))
           (config_stageFunctions h config) (enum_keys h (config_stageFunctions h config)) = None"
  by (auto simp: construct_def config_stageFunctions_def Let_def split: option.splits)

lemma null_or_not_object:
  "(\<not> truthy config \<or> typeof_js config \<noteq> ''object'') \<longleftrightarrow> (config = JNull \<or> typeof_js config \<noteq> ''object'')"
  by (cases config) auto

lemma construct_Inl_iff: "(\<exists>err. construct h config = Inl err) \<longleftrightarrow> spec_rejects h config"
proof -
  have "(\<exists>err. construct h config = Inl err) \<longleftrightarrow> \<not> (\<exists>e. construct h config = Inr e)"
    by (cases "construct h config") auto
  also have "\<dots> \<longleftrightarrow> spec_rejects h config"
    unfolding construct_Inr_iff validate_None_iff spec_rejects_def
    using null_or_not_object[of config]
    by (auto simp: list_all_iff includes_js_def)
  finally show ?thesis .
qed

lemma construct_initial:
  assumes "construct h config = Inr e"
  shows "currentStageIndex e = 0 \<and> currentState e = get_prop h config ''initialState''
         \<and> previousState e = JNull \<and> intervalId e = None
         \<and> stages e = elems (get_prop h config ''stages'')
         \<and> updateUI e = get_prop h config ''updateUI''
         \<and> stageFunctions e = config_stageFunctions h config"
  using assms
  by (auto simp: construct_def config_stageFunctions_def Let_def split: if_splits option.splits)

lemma construct_wf:
  assumes "construct h config = Inr e"
  shows "wf_engine e"
proof -
  have "\<exists>e. construct h config = Inr e" using assms by blast
  then have "elems (get_prop h config ''stages'') \<noteq> []"
    and "typeof_js (get_prop h config ''updateUI'') = ''function''"
    unfolding construct_Inr_iff by simp_all
  then show ?thesis
    using construct_initial[OF assms] by (simp add: wf_engine_def)
qed

text \<open>
  C4. The constructor raises a configuration error exactly when the configuration is null
  or not an object, or \<^verbatim>\<open>stages\<close> is missing or not a non-empty array, or \<^verbatim>\<open>updateUI\<close> is
  not a function, or some key of the stage functions is not among the stages, or some
  value of the stage functions is not a function. Every other configuration yields an
  engine, with index 0, the configured initial state as current state, no previous state
  (\<^verbatim>\<open>null\<close>) and no timer.
\<close>

theorem construct_rejects_iff:
  "((\<exists>err. construct h config = Inl err) \<longleftrightarrow> spec_rejects h config)
   \<and> (\<not> spec_rejects h config \<longrightarrow>
        (\<exists>e. construct h config = Inr e
            \<and> currentStageIndex e = 0
            \<and> currentState e = get_prop h config ''initialState''
            \<and> previousState e = JNull
            \<and> intervalId e = None))"
proof (intro conjI impI)
  show "(\<exists>err. construct h config = Inl err) \<longleftrightarrow> spec_rejects h config"
    by (rule construct_Inl_iff)
next
  assume "\<not> spec_rejects h config"
  then have "\<not> (\<exists>err. construct h config = Inl err)"
    using construct_Inl_iff by blast
  then obtain e where e: "construct h config = Inr e"
    by (cases "construct h config") auto
  then show "\<exists>e. construct h config = Inr e
            \<and> currentStageIndex e = 0
            \<and> currentState e = get_prop h config ''initialState''
            \<and> previousState e = JNull
            \<and> intervalId e = None"
    using construct_initial[OF e] by blast
qed

theorem construct_rejects_iff_witness:
  "\<not> spec_rejects demo_host counter_config
   \<and> construct demo_host counter_config = Inr counter_engine
   \<and> currentStageIndex counter_engine = 0
   \<and> currentState counter_engine = get_prop demo_host counter_config ''initialState''
   \<and> previousState counter_engine = JNull
   \<and> intervalId counter_engine = None
   \<and> spec_rejects demo_host JNull
   \<and> construct demo_host JNull = Inl MissingConfig
   \<and> spec_rejects demo_host
        (JObj [(''stages'', four_stages), (''updateUI'', JFun (User 0)),
               (''stageFunctions'', JObj [(''Typo'', JFun (User 1))])])
   \<and> construct demo_host
        (JObj [(''stages'', four_stages), (''updateUI'', JFun (User 0)),
               (''stageFunctions'', JObj [(''Typo'', JFun (User 1))])])
       = Inl (InvalidStageName ''Typo'')"
proof -
  let ?bad = "JObj [(''stages'', four_stages), (''updateUI'', JFun (User 0)),
               (''stageFunctions'', JObj [(''Typo'', JFun (User 1))])]"
  have ok: "\<not> spec_rejects demo_host counter_config"
    using construct_rejects_iff[of demo_host counter_config] construct_counter by simp
  have init: "\<exists>e. construct demo_host counter_config = Inr e
            \<and> currentStageIndex e = 0
            \<and> currentState e = get_prop demo_host counter_config ''initialState''
            \<and> previousState e = JNull
            \<and> intervalId e = None"
    using construct_rejects_iff[of demo_host counter_config] ok by blast
  have null: "construct demo_host JNull = Inl MissingConfig"
    by (simp add: construct_def)
  have bad: "construct demo_host ?bad = Inl (InvalidStageName ''Typo'')"
    by (simp add: construct_def get_prop_def four_stages_def js_or_def enum_keys_def
        includes_js_def object_prototype_def)
  have rn: "spec_rejects demo_host JNull"
    using construct_rejects_iff[of demo_host JNull] null by simp
  have rb: "spec_rejects demo_host ?bad"
    using construct_rejects_iff[of demo_host ?bad] bad by simp
  show ?thesis
    using ok init construct_counter null bad rn rb by auto
qed

section \<open>The stage index stays in range\<close>

lemma nextStage_wf:
  assumes "wf_engine e"
  shows "wf_engine (fst (snd (nextStage h e wd))) \<and> stages (fst (snd (nextStage h e wd))) = stages e"
proof (cases "truthy (get_prop h (stageFunctions e) (prop_key h (getCurrentStage e)))")
  case False
  show ?thesis
    using assms by (simp add: nextStage_no_handler[OF False] move_on_engine wf_engine_def)
next
  case True
  obtain r wd1 where i: "invoke h Handler (get_prop h (stageFunctions e) (prop_key h (getCurrentStage e)))
           [currentState e] wd = (r, wd1)"
    by (cases "invoke h Handler (get_prop h (stageFunctions e) (prop_key h (getCurrentStage e)))
           [currentState e] wd") auto
  show ?thesis
  proof (cases r)
    case (Returned v)
    show ?thesis
      using assms
      by (simp add: nextStage_returned[OF True i[unfolded Returned]] move_on_engine wf_engine_def)
  next
    case (Raised err)
    show ?thesis
      using assms by (simp add: nextStage_raised_engine[OF True i[unfolded Raised]])
  qed
qed

lemma step_wf:
  assumes "wf_engine e"
  shows "wf_engine (fst (snd (step h c e wd))) \<and> stages (fst (snd (step h c e wd))) = stages e"
proof (cases c)
  case NextStage
  then show ?thesis using nextStage_wf[OF assms] by simp
next
  case (SetState v)
  then show ?thesis using assms by (simp add: setState_def notify_engine wf_engine_def)
next
  case Reset
  then show ?thesis using assms by (simp add: reset_engine wf_engine_def)
qed

lemma run_wf:
  assumes "wf_engine e"
  shows "wf_engine (fst (snd (run h cs e wd))) \<and> stages (fst (snd (run h cs e wd))) = stages e"
  using assms
proof (induction cs arbitrary: e wd)
  case Nil
  then show ?case by simp
next
  case (Cons c cs)
  obtain r e1 wd1 where s: "step h c e wd = (r, e1, wd1)"
    by (cases "step h c e wd") auto
  have wf1: "wf_engine e1" and st1: "stages e1 = stages e"
    using step_wf[OF Cons.prems, of h c wd] s by simp_all
  obtain rs e2 wd2 where r: "run h cs e1 wd1 = (rs, e2, wd2)"
    by (cases "run h cs e1 wd1") auto
  show ?case
    using Cons.IH[OF wf1, of wd1] s st1 r by simp
qed

text \<open>
  C6. Take any engine the constructor builds and any finite sequence of \<^verbatim>\<open>nextStage\<close>,
  \<^verbatim>\<open>setState\<close> and \<^verbatim>\<open>reset\<close> calls, whether or not some of them raise. After the sequence
  (hence after each of its calls, every prefix being such a sequence) the stages are the
  configured ones and \<^verbatim>\<open>getCurrentStageIndex()\<close> is a natural number below their count.
\<close>

theorem stage_index_in_range:
  assumes "construct h config = Inr e0"
  shows "case run h calls e0 wd of
           (cs, e, wd') \<Rightarrow>
             stages e = stages e0 \<and> getCurrentStageIndex e < length (stages e)"
  using run_wf[OF construct_wf[OF assms], of h calls wd]
  by (cases "run h calls e0 wd") (auto simp: wf_engine_def getCurrentStageIndex_def)

theorem stage_index_in_range_witness:
  "construct demo_host counter_config = Inr counter_engine
   \<and> getCurrentStageIndex (fst (snd (run demo_host
        [NextStage, NextStage, SetState (JNum 1), NextStage, NextStage, NextStage, Reset, NextStage]
        counter_engine world0))) < length (stages counter_engine)
   \<and> length (stages counter_engine) = 4"
proof -
  let ?calls = "[NextStage, NextStage, SetState (JNum 1), NextStage, NextStage, NextStage, Reset,
                 NextStage]"
  have len: "length (stages counter_engine) = 4"
    by (simp add: counter_engine_def four_stages_def)
  obtain cs e wd' where r: "run demo_host ?calls counter_engine world0 = (cs, e, wd')"
    using prod_cases3 by blast
  have "stages e = stages counter_engine \<and> getCurrentStageIndex e < length (stages e)"
    using stage_index_in_range[OF construct_counter, of ?calls world0, unfolded r prod.case] .
  then have "getCurrentStageIndex e < length (stages counter_engine)"
    by (elim conjE) simp
  then have "getCurrentStageIndex (fst (snd (run demo_host ?calls counter_engine world0)))
               < length (stages counter_engine)"
    by (simp only: r fst_conv snd_conv)
  then show ?thesis
    using construct_counter len by blast
qed
section \<open>The timer\<close>

text \<open>
  C5, as the code has it. \<^verbatim>\<open>startCycle(ms)\<close> first stops a running timer, with a warning,
  whatever follows. The interval it uses is \<^verbatim>\<open>ms\<close> when that is truthy (given and not 0),
  else the configured one. When the interval to use is falsy (both are absent or 0) it
  warns and starts nothing: no timer handle is left. Otherwise, and so for a negative
  interval too, it creates one new timer with that interval and keeps its handle. Nothing
  else of the engine changes.
\<close>

theorem startCycle_interval_choice:
  "case startCycle ms e wd of
     (e', wd') \<Rightarrow>
       (let used = (if truthy ms then ms else interval e);
            stopping = (case intervalId e of
                          Some t \<Rightarrow> [ConsoleWarn already_running, TimerCleared t]
                        | None \<Rightarrow> []);
            remaining = (case intervalId e of
                           Some t \<Rightarrow> filter (\<lambda>p. fst p \<noteq> t) (timers wd)
                         | None \<Rightarrow> timers wd)
        in if truthy used
           then e' = e\<lparr>intervalId := Some (Suc (last_timer wd))\<rparr>
                \<and> wd' = wd\<lparr>timers := remaining @ [(Suc (last_timer wd), used)],
                            last_timer := Suc (last_timer wd),
                            trace := trace wd @ stopping @ [TimerSet (Suc (last_timer wd)) used]\<rparr>
           else e' = e\<lparr>intervalId := None\<rparr>
                \<and> wd' = wd\<lparr>timers := remaining,
                            trace := trace wd @ stopping @ [ConsoleWarn no_interval]\<rparr>)"
  by (cases "intervalId e")
     (auto simp: startCycle_def stopCycle_def js_or_def setInterval_def clearInterval_def
        console_warn_def Let_def)

theorem startCycle_interval_choice_witness:
  "startCycle JUndefined counter_engine world0
     = (counter_engine, world0\<lparr>trace := [ConsoleWarn no_interval]\<rparr>)
   \<and> startCycle (JNum 50) (counter_engine\<lparr>intervalId := Some 1\<rparr>)
        (world0\<lparr>timers := [(1, JNum 100)], last_timer := 1\<rparr>)
     = (counter_engine\<lparr>intervalId := Some 2\<rparr>,
        world0\<lparr>timers := [(2, JNum 50)], last_timer := 2,
               trace := [ConsoleWarn already_running, TimerCleared 1, TimerSet 2 (JNum 50)]\<rparr>)"
proof -
  have a: "startCycle JUndefined counter_engine world0
     = (counter_engine, world0\<lparr>trace := [ConsoleWarn no_interval]\<rparr>)"
    using startCycle_interval_choice[of JUndefined counter_engine world0]
    by (cases "startCycle JUndefined counter_engine world0")
       (simp add: counter_engine_def world0_def)
  have b: "startCycle (JNum 50) (counter_engine\<lparr>intervalId := Some 1\<rparr>)
        (world0\<lparr>timers := [(1, JNum 100)], last_timer := 1\<rparr>)
     = (counter_engine\<lparr>intervalId := Some 2\<rparr>,
        world0\<lparr>timers := [(2, JNum 50)], last_timer := 2,
               trace := [ConsoleWarn already_running, TimerCleared 1, TimerSet 2 (JNum 50)]\<rparr>)"
    using startCycle_interval_choice[of "JNum 50" "counter_engine\<lparr>intervalId := Some 1\<rparr>"
        "world0\<lparr>timers := [(1, JNum 100)], last_timer := 1\<rparr>"]
    by (cases "startCycle (JNum 50) (counter_engine\<lparr>intervalId := Some 1\<rparr>)
        (world0\<lparr>timers := [(1, JNum 100)], last_timer := 1\<rparr>)")
       (simp add: counter_engine_def world0_def Let_def numeral_2_eq_2)
  show ?thesis
    using a b by blast
qed

text \<open>
  C5, as stated, fails: on an engine whose configured interval is 0, \<^verbatim>\<open>startCycle(-5)\<close> is
  given no positive interval and yet starts a timer.
\<close>

theorem startCycle_negative_interval_starts:
  "interval counter_engine = JNum 0
   \<and> intervalId counter_engine = None
   \<and> startCycle (JNum (- 5)) counter_engine world0
       = (counter_engine\<lparr>intervalId := Some 1\<rparr>,
          world0\<lparr>timers := [(1, JNum (- 5))], last_timer := 1,
                 trace := [TimerSet 1 (JNum (- 5))]\<rparr>)"
  by (simp add: startCycle_def js_or_def setInterval_def counter_engine_def world0_def Let_def)

end
